theory Spec2Isabelle
  imports Main
begin

section \<open>Exceptions and Python values\<close>

text \<open>
  Every \<^verbatim>\<open>raise\<close> of the Python source is a value of \<open>exn\<close>; a function that
  may raise returns \<open>exn + 'a\<close> with \<open>Inl\<close> for the exception. Only the class of the
  exception is kept, not its message. All constructors stand for subclasses of
  Python's \<^verbatim>\<open>Exception\<close>, which is what \<^verbatim>\<open>except Exception\<close> catches.
\<close>

datatype exn =
    ValueError
  | KeyError
  | IndexError
  | NotImplementedError
  | ValidationError
  | EmbeddingError
  | TransientProviderError
  | HTTPStatusError
  | UnexpectedResponse
  | ConnectError

text \<open>Values of type \<^verbatim>\<open>Any\<close> as they occur in metadata and filter dicts; a dict is an
  association list in insertion order.\<close>

datatype pyval =
    VNone
  | VBool bool
  | VInt int
  | VStr string
  | VList "pyval list"
  | VDict "(string \<times> pyval) list"

type_synonym pydict = "(string \<times> pyval) list"

section \<open>The Qdrant client, as far as the store uses it\<close>

text \<open>
  The remote index is a dict of named collections; a collection has the vector size and
  distance it was created with and its points keyed by id. \<open>'d\<close> is the client
  library's \<^verbatim>\<open>Distance\<close> enum, \<open>'v\<close> the type of vectors. Every client call
  takes a \<open>fault\<close>: \<open>Some e\<close> when the call raises \<open>e\<close> (transport or server error),
  in which case the index is left as it is.
\<close>

datatype 'v point = PointStruct (point_id: string) (point_vector: 'v) (point_payload: pydict)

record ('d, 'v) collection =
  vec_size :: int
  vec_distance :: 'd
  col_points :: "string \<rightharpoonup> 'v point"

type_synonym ('d, 'v) qdrant = "string \<rightharpoonup> ('d, 'v) collection"

definition get_collections :: "exn option \<Rightarrow> ('d, 'v) qdrant \<Rightarrow> (exn + string set) \<times> ('d, 'v) qdrant" where
  "get_collections fault q =
     (case fault of Some e \<Rightarrow> (Inl e, q) | None \<Rightarrow> (Inr (dom q), q))"

definition create_collection ::
  "exn option \<Rightarrow> string \<Rightarrow> int \<Rightarrow> 'd \<Rightarrow> ('d, 'v) qdrant \<Rightarrow> (exn + unit) \<times> ('d, 'v) qdrant" where
  "create_collection fault name sz d q =
     (case fault of
        Some e \<Rightarrow> (Inl e, q)
      | None \<Rightarrow>
          if name \<in> dom q then (Inl UnexpectedResponse, q)
          else (Inr (), q(name \<mapsto> \<lparr>vec_size = sz, vec_distance = d, col_points = Map.empty\<rparr>)))"

text \<open>
  Upsert into an existing collection, as the spec describes the index: \<^emph>\<open>overwrite
  semantics keyed by id; last write wins\<close>, the points being taken in order.
\<close>

definition put_point :: "'v point \<Rightarrow> (string \<rightharpoonup> 'v point) \<Rightarrow> (string \<rightharpoonup> 'v point)" where
  "put_point p m = m(point_id p \<mapsto> p)"

definition upsert ::
  "exn option \<Rightarrow> string \<Rightarrow> 'v point list \<Rightarrow> ('d, 'v) qdrant \<Rightarrow> (exn + unit) \<times> ('d, 'v) qdrant" where
  "upsert fault name pts q =
     (case fault of
        Some e \<Rightarrow> (Inl e, q)
      | None \<Rightarrow>
          (case q name of
             None \<Rightarrow> (Inl UnexpectedResponse, q)
           | Some c \<Rightarrow> (Inr (), q(name \<mapsto> c\<lparr>col_points := fold put_point pts (col_points c)\<rparr>))))"

section \<open>QdrantStore\<close>

text \<open>The dataclass fields the modelled methods read.\<close>

record qdrant_store =
  collection_name :: string
  vector_size :: int
  distance :: string
  content_payload_key :: string
  metadata_payload_key :: string

text \<open>
  \<^verbatim>\<open>health_check\<close>: the probe is \<^verbatim>\<open>get_collections\<close> inside
  \<^verbatim>\<open>try ... except Exception\<close>; the result is \<open>Inr\<close> of the returned bool, and
  \<open>Inl\<close> would be an exception leaving the method.
\<close>

definition health_check :: "exn option \<Rightarrow> ('d, 'v) qdrant \<Rightarrow> (exn + bool) \<times> ('d, 'v) qdrant" where
  "health_check fault q =
     (case get_collections fault q of
        (Inr _, q') \<Rightarrow> (Inr True, q')
      | (Inl exc, q') \<Rightarrow> (Inr False, q'))"

text \<open>
  \<^verbatim>\<open>_bootstrap_collection\<close>. \<open>resolve\<close> is \<^verbatim>\<open>rest.Distance[self.distance.upper()]\<close>,
  the enum lookup of the client library, \<open>None\<close> where it raises \<^verbatim>\<open>KeyError\<close>.
  \<open>f1\<close> and \<open>f2\<close> are the faults of the two client calls.
\<close>

definition bootstrap_collection ::
  "(string \<Rightarrow> 'd option) \<Rightarrow> exn option \<Rightarrow> exn option \<Rightarrow> qdrant_store \<Rightarrow> ('d, 'v) qdrant
     \<Rightarrow> (exn + unit) \<times> ('d, 'v) qdrant" where
  "bootstrap_collection resolve f1 f2 s q =
     (case get_collections f1 q of
        (Inl e, q') \<Rightarrow> (Inl e, q')
      | (Inr collections, q') \<Rightarrow>
          if collection_name s \<in> collections then (Inr (), q')
          else (case resolve (distance s) of
                  None \<Rightarrow> (Inl KeyError, q')
                | Some d \<Rightarrow> create_collection f2 (collection_name s) (vector_size s) d q'))"













section \<open>JinaEmbedder\<close>

text \<open>The constructor arguments the modelled methods read.\<close>

record jina_embedder =
  api_key :: "string option"
  allow_empty_api_key :: bool
  max_retries :: int
  batch_size :: int

text \<open>\<^verbatim>\<open>not self.api_key\<close>: \<^verbatim>\<open>None\<close> and the empty string are falsy.\<close>

definition no_api_key :: "jina_embedder \<Rightarrow> bool" where
  "no_api_key E = (api_key E = None \<or> api_key E = Some [])"

text \<open>
  The state of one embedder: its cache, and the log of the batch requests that reached
  the network (the \<^verbatim>\<open>input\<close> list of each payload, oldest first). The log is how the
  model counts attempts; the source keeps no such list.
\<close>

record ('k, 'v) embedder_state =
  cache :: "'k \<rightharpoonup> 'v"
  requests :: "string list list"

text \<open>
  Modelled from the spec: the cache helpers \<^verbatim>\<open>_check_cache\<close> and \<^verbatim>\<open>_store_cache\<close>
  of \<^verbatim>\<open>BaseEmbedder\<close> (src/core/embeddings/base.py) are missing from the sources.
  The spec has an \<^emph>\<open>EmbeddingCache: key\<rightarrow>vector memo keyed by (provider, model,
  normalized text)\<close> with \<^emph>\<open>no expiry\<close>, into which \<^emph>\<open>every newly computed (text
  \<rightarrow> vector) pair is written\<close>. For one embedder provider and model are fixed, so
  \<open>cache_key\<close> maps a text to its key; a lookup returns \<open>None\<close> on a miss.
\<close>

definition check_cache :: "(string \<Rightarrow> 'k) \<Rightarrow> ('k \<rightharpoonup> 'v) \<Rightarrow> string \<Rightarrow> 'v option" where
  "check_cache cache_key c text = c (cache_key text)"

definition store_cache :: "(string \<Rightarrow> 'k) \<Rightarrow> ('k \<rightharpoonup> 'v) \<Rightarrow> string \<Rightarrow> 'v \<Rightarrow> ('k \<rightharpoonup> 'v)" where
  "store_cache cache_key c text emb = c(cache_key text \<mapsto> emb)"

text \<open>
  The remote embedding service. \<open>service n inputs\<close> is its answer to the request
  number \<open>n\<close> of this embedder (counted from 0) carrying \<open>inputs\<close>: the embeddings of
  the \<^verbatim>\<open>data\<close> items of a 2xx response, a transient failure (timeout, rate limit,
  5xx), or any other failure (4xx, malformed body).
\<close>

datatype 'v response = Data "'v list" | TransientFailure | Rejected

type_synonym 'v service = "nat \<Rightarrow> string list \<Rightarrow> 'v response"

text \<open>
  The body of \<^verbatim>\<open>_execute_async_request\<close>, one attempt. Without an API key and with
  \<^verbatim>\<open>allow_empty_api_key\<close> no request is sent: every input gets the mock vector
  \<open>mock text\<close> (seeded by the hash of the text).
\<close>

definition request_once ::
  "jina_embedder \<Rightarrow> (string \<Rightarrow> 'v) \<Rightarrow> 'v service \<Rightarrow> string list \<Rightarrow> string list list
     \<Rightarrow> (exn + 'v list) \<times> string list list" where
  "request_once E mock service inputs log =
     (if no_api_key E \<and> \<not> allow_empty_api_key E then (Inl EmbeddingError, log)
      else if no_api_key E \<and> allow_empty_api_key E then (Inr (map mock inputs), log)
      else (case service (length log) inputs of
              Data vs \<Rightarrow> (Inr vs, log @ [inputs])
            | TransientFailure \<Rightarrow> (Inl TransientProviderError, log @ [inputs])
            | Rejected \<Rightarrow> (Inl HTTPStatusError, log @ [inputs])))"

text \<open>
  Modelled from the spec: the decorator \<^verbatim>\<open>_retry\<close> of src/core/embeddings/base.py is
  missing from the sources. The spec has each batch call \<^emph>\<open>retried up to a configured
  maximum attempt count with exponential backoff on transient failures\<close>, while
  \<^emph>\<open>non-transient failures are not retried and fail immediately\<close>, and a transient error
  is \<^emph>\<open>retried with bounded backoff, then escalated to EmbeddingError\<close>. The first
  argument is the number of attempts left; the waiting between attempts is not modelled.
\<close>

fun retry :: "nat \<Rightarrow> ('s \<Rightarrow> (exn + 'a) \<times> 's) \<Rightarrow> 's \<Rightarrow> (exn + 'a) \<times> 's" where
  "retry 0 attempt s = (Inl EmbeddingError, s)"
| "retry (Suc n) attempt s =
     (case attempt s of
        (Inr r, s') \<Rightarrow> (Inr r, s')
      | (Inl e, s') \<Rightarrow> if e = TransientProviderError then retry n attempt s' else (Inl e, s'))"

text \<open>\<^verbatim>\<open>_execute_async_request\<close> is decorated \<^verbatim>\<open>@_retry(3)\<close>.\<close>

definition execute_async_request ::
  "jina_embedder \<Rightarrow> (string \<Rightarrow> 'v) \<Rightarrow> 'v service \<Rightarrow> string list \<Rightarrow> string list list
     \<Rightarrow> (exn + 'v list) \<times> string list list" where
  "execute_async_request E mock service inputs log =
     retry 3 (request_once E mock service inputs) log"

text \<open>\<^verbatim>\<open>_get_embeddings\<close>: one batch; any exception becomes \<^verbatim>\<open>EmbeddingError\<close>.\<close>

definition get_embeddings ::
  "jina_embedder \<Rightarrow> (string \<Rightarrow> 'v) \<Rightarrow> 'v service \<Rightarrow> string list \<Rightarrow> string list list
     \<Rightarrow> (exn + 'v list) \<times> string list list" where
  "get_embeddings E mock service texts log =
     (if texts = [] then (Inr [], log)
      else (case execute_async_request E mock service texts log of
              (Inr results, log') \<Rightarrow> (Inr results, log')
            | (Inl e, log') \<Rightarrow> (Inl EmbeddingError, log')))"

text \<open>
  The batching loop of \<^verbatim>\<open>embed_async_many\<close>:
  \<^verbatim>\<open>for i in range(0, len(uncached_texts), batch_size): batch = uncached_texts[i : i + batch_size]\<close>.
  \<open>batches\<close> lists the slices for a positive step; \<open>embed_each\<close> awaits the batches in
  turn, extending \<^verbatim>\<open>batched_embeddings\<close>, and stops at the first one that raises.
\<close>

function batches :: "nat \<Rightarrow> 'a list \<Rightarrow> 'a list list" where
  "batches n xs = (if n = 0 \<or> xs = [] then [] else take n xs # batches n (drop n xs))"
  by pat_completeness auto
termination
  by (relation "measure (\<lambda>(n, xs). length xs)") auto

declare batches.simps [simp del]

fun embed_each ::
  "jina_embedder \<Rightarrow> (string \<Rightarrow> 'v) \<Rightarrow> 'v service \<Rightarrow> string list list \<Rightarrow> string list list
     \<Rightarrow> (exn + 'v list) \<times> string list list" where
  "embed_each E mock service [] log = (Inr [], log)"
| "embed_each E mock service (batch # rest) log =
     (case get_embeddings E mock service batch log of
        (Inl e, log') \<Rightarrow> (Inl e, log')
      | (Inr vs, log') \<Rightarrow>
          (case embed_each E mock service rest log' of
             (Inl e, log'') \<Rightarrow> (Inl e, log'')
           | (Inr ws, log'') \<Rightarrow> (Inr (vs @ ws), log'')))"

text \<open>
  The merge loop of \<^verbatim>\<open>embed_async_many\<close> over \<^verbatim>\<open>enumerate(cached_results)\<close>, each
  entry paired with its text \<^verbatim>\<open>texts[i]\<close>. The list argument \<open>fresh\<close> is
  \<^verbatim>\<open>batched_embeddings[fresh_idx:]\<close>; reading past its end raises \<^verbatim>\<open>IndexError\<close>.
  A fresh vector is appended to the result and stored in the cache.
\<close>

fun merge_results ::
  "(string \<Rightarrow> 'k) \<Rightarrow> (string \<times> 'v option) list \<Rightarrow> 'v list \<Rightarrow> ('k \<rightharpoonup> 'v)
     \<Rightarrow> (exn + 'v list) \<times> ('k \<rightharpoonup> 'v)" where
  "merge_results cache_key [] fresh c = (Inr [], c)"
| "merge_results cache_key ((text, Some cached) # rest) fresh c =
     (case merge_results cache_key rest fresh c of
        (Inl e, c') \<Rightarrow> (Inl e, c')
      | (Inr result, c') \<Rightarrow> (Inr (cached # result), c'))"
| "merge_results cache_key ((text, None) # rest) [] c = (Inl IndexError, c)"
| "merge_results cache_key ((text, None) # rest) (emb # fresh) c =
     (case merge_results cache_key rest fresh (store_cache cache_key c text emb) of
        (Inl e, c') \<Rightarrow> (Inl e, c')
      | (Inr result, c') \<Rightarrow> (Inr (emb # result), c'))"

text \<open>
  \<^verbatim>\<open>embed_async_many\<close>. A step of 0 makes \<^verbatim>\<open>range\<close> raise \<^verbatim>\<open>ValueError\<close>, a
  negative step gives no batch at all. The hit and miss accounting of
  \<^verbatim>\<open>_update_stats\<close> is left out. The call is modelled as running alone: no other
  task changes the cache between its lookups and its stores.
\<close>

definition uncached_texts_of :: "string list \<Rightarrow> 'v option list \<Rightarrow> string list" where
  "uncached_texts_of texts cached_results =
     (let uncached_indices = filter (\<lambda>i. cached_results ! i = None) [0..<length cached_results]
      in map (\<lambda>i. texts ! i) uncached_indices)"

definition embed_async_many ::
  "(string \<Rightarrow> 'k) \<Rightarrow> jina_embedder \<Rightarrow> (string \<Rightarrow> 'v) \<Rightarrow> 'v service \<Rightarrow> string list
     \<Rightarrow> ('k, 'v) embedder_state \<Rightarrow> (exn + 'v list) \<times> ('k, 'v) embedder_state" where
  "embed_async_many cache_key E mock service texts st =
     (if texts = [] then (Inr [], st)
      else
        let cached_results = map (check_cache cache_key (cache st)) texts
        in if list_all (\<lambda>cached. cached \<noteq> None) cached_results
           then (Inr (map the (filter (\<lambda>c. c \<noteq> None) cached_results)), st)
           else
             let uncached_texts = uncached_texts_of texts cached_results
             in if batch_size E = 0 then (Inl ValueError, st)
                else
                  (case embed_each E mock service
                          (if batch_size E < 0 then [] else batches (nat (batch_size E)) uncached_texts)
                          (requests st) of
                     (Inl e, log') \<Rightarrow> (Inl e, st\<lparr>requests := log'\<rparr>)
                   | (Inr batched_embeddings, log') \<Rightarrow>
                       (case merge_results cache_key (zip texts cached_results)
                               batched_embeddings (cache st) of
                          (Inl e, c') \<Rightarrow> (Inl e, \<lparr>cache = c', requests = log'\<rparr>)
                        | (Inr result, c') \<Rightarrow> (Inr result, \<lparr>cache = c', requests = log'\<rparr>))))"



section \<open>DocumentIngestor\<close>

text \<open>The \<^verbatim>\<open>_stats\<close> dict, its four counters being Python ints.\<close>

record stats =
  documents_processed :: int
  chunks_created :: int
  embeddings_generated :: int
  bytes_processed :: int

text \<open>
  Modelled from the spec: the \<^verbatim>\<open>Document\<close> class (src/core/models/document.py) is
  missing from the sources. The spec gives it an \<^emph>\<open>id (caller-supplied or generated)\<close>, a
  \<^emph>\<open>text\<close> and \<^emph>\<open>metadata (open key-value map)\<close>; chunks are Documents too.
\<close>

record document =
  doc_id :: string
  doc_text :: string
  doc_metadata :: pydict

text \<open>
  What the loader sees of the file system: a directory is missing, or it has entries or
  not (\<^verbatim>\<open>any(data_dir.iterdir())\<close>) and \<^verbatim>\<open>glob("**/*")\<close> lists paths. Of a path the
  loader reads its string, name and lower-cased suffix, whether it is a file, its size, and
  its content, which is \<open>Inl\<close> when reading raises. \<open>new_doc_id\<close> is the id that the
  Document built from the file gets.
\<close>

record file_entry =
  file_path :: string
  file_name :: string
  file_suffix :: string
  is_file :: bool
  st_size :: nat
  file_content :: "exn + string"
  new_doc_id :: string

datatype data_dir = Missing | Directory (has_entries: bool) (glob_all: "file_entry list")

text \<open>
  \<^verbatim>\<open>_read_file_content\<close>: plain reading for the text suffixes, PDF and DOCX with every
  exception turned into \<^verbatim>\<open>ValueError\<close>, and \<^verbatim>\<open>ValueError\<close> for any other suffix.
\<close>

definition read_file_content :: "file_entry \<Rightarrow> exn + string" where
  "read_file_content f =
     (if file_suffix f \<in> {''.txt'', ''.md'', ''.json'', ''.yaml'', ''.yml'', ''.html'', ''.css'',
                           ''.js'', ''.py''}
      then file_content f
      else if file_suffix f = ''.pdf'' \<or> file_suffix f = ''.docx''
      then (case file_content f of Inl e \<Rightarrow> Inl ValueError | Inr content \<Rightarrow> Inr content)
      else Inl ValueError)"

definition supported_extensions :: "string set" where
  "supported_extensions =
     {''.txt'', ''.md'', ''.pdf'', ''.docx'', ''.html'', ''.json'', ''.yaml'', ''.yml''}"

text \<open>
  The loop of \<^verbatim>\<open>_load_documents_from_directory\<close> over the globbed paths, carrying
  \<^verbatim>\<open>documents\<close>, \<^verbatim>\<open>processed_files\<close>, the stats (whose \<^verbatim>\<open>bytes_processed\<close> grows by
  the size of each loaded file) and \<^verbatim>\<open>documents_count\<close>. A file whose reading raises is
  skipped; \<^verbatim>\<open>stat()\<close> and the construction of the Document are taken not to raise.
\<close>

definition document_of_file :: "file_entry \<Rightarrow> string \<Rightarrow> document" where
  "document_of_file f content =
     \<lparr>doc_id = new_doc_id f, doc_text = content,
      doc_metadata = [(''source'', VStr (file_path f)), (''filename'', VStr (file_name f)),
                      (''extension'', VStr (file_suffix f)), (''size_bytes'', VInt (int (st_size f)))]\<rparr>"

fun load_files ::
  "file_entry list \<Rightarrow> document list \<Rightarrow> string set \<Rightarrow> stats \<Rightarrow> int
     \<Rightarrow> document list \<times> stats \<times> int" where
  "load_files [] documents processed_files st documents_count = (documents, st, documents_count)"
| "load_files (f # fs) documents processed_files st documents_count =
     (if is_file f \<and> file_suffix f \<in> supported_extensions
      then
        (if file_path f \<in> processed_files
         then load_files fs documents processed_files st documents_count
         else (case read_file_content f of
                 Inl e \<Rightarrow> load_files fs documents processed_files st documents_count
               | Inr content \<Rightarrow>
                   load_files fs (documents @ [document_of_file f content])
                     (insert (file_path f) processed_files)
                     (st\<lparr>bytes_processed := bytes_processed st + int (st_size f)\<rparr>)
                     (documents_count + 1)))
      else load_files fs documents processed_files st documents_count)"

text \<open>
  \<^verbatim>\<open>_load_documents_from_directory\<close>. On success \<^verbatim>\<open>documents_processed\<close> is assigned
  the count of this call (\<^verbatim>\<open>self._stats["documents_processed"] = documents_count\<close>).
\<close>

definition load_documents_from_directory :: "data_dir \<Rightarrow> stats \<Rightarrow> (exn + document list) \<times> stats" where
  "load_documents_from_directory data_dir st =
     (case data_dir of
        Missing \<Rightarrow> (Inl ValueError, st)
      | Directory entries paths \<Rightarrow>
          if \<not> entries then (Inl ValueError, st)
          else (case load_files paths [] {} st 0 of
                  (documents, st', documents_count) \<Rightarrow>
                    if documents = [] then (Inl ValueError, st')
                    else (Inr documents, st'\<lparr>documents_processed := documents_count\<rparr>)))"

text \<open>
  \<^verbatim>\<open>_generate_embeddings\<close>. \<open>embed_many\<close> is what \<^verbatim>\<open>embedder.embed_async_many\<close> returns
  or raises on the texts of the chunks. The dict comprehension reads \<^verbatim>\<open>chunks[i]\<close> for
  every embedding, so more embeddings than chunks raise \<^verbatim>\<open>IndexError\<close>; a later chunk
  with the same id replaces the earlier entry.
\<close>

definition generate_embeddings ::
  "bool \<Rightarrow> (string list \<Rightarrow> exn + 'v list) \<Rightarrow> document list \<Rightarrow> stats
     \<Rightarrow> (exn + (string \<rightharpoonup> 'v)) \<times> stats" where
  "generate_embeddings has_embedder embed_many chunks st =
     (if \<not> has_embedder then (Inl ValueError, st)
      else (case embed_many (map doc_text chunks) of
              Inl e \<Rightarrow> (Inl e, st)
            | Inr embeddings \<Rightarrow>
                if length chunks < length embeddings then (Inl IndexError, st)
                else (Inr (fold (\<lambda>(i, embedding) m. m(i \<mapsto> embedding))
                             (zip (map doc_id chunks) embeddings) Map.empty),
                      st\<lparr>embeddings_generated := embeddings_generated st + int (length embeddings)\<rparr>)))"

text \<open>
  \<^verbatim>\<open>_store_chunks_with_embeddings\<close>. A chunk without an embedding is skipped. The
  payload is \<^verbatim>\<open>{"text": chunk.text, **chunk.metadata}\<close>. The store is a
  \<^verbatim>\<open>QdrantStore\<close>, the only one \<^verbatim>\<open>get_vector_store\<close> builds, so it has a
  \<^verbatim>\<open>_client\<close> and the \<^verbatim>\<open>NotImplementedError\<close> branch is not reached.
\<close>

fun dict_set :: "pydict \<Rightarrow> string \<Rightarrow> pyval \<Rightarrow> pydict" where
  "dict_set [] k v = [(k, v)]"
| "dict_set ((k', v') # items) k v =
     (if k' = k then (k, v) # items else (k', v') # dict_set items k v)"

definition chunk_payload :: "document \<Rightarrow> pydict" where
  "chunk_payload chunk =
     fold (\<lambda>(k, v) d. dict_set d k v) (doc_metadata chunk) [(''text'', VStr (doc_text chunk))]"

definition chunk_point :: "(string \<rightharpoonup> 'v) \<Rightarrow> document \<Rightarrow> 'v point option" where
  "chunk_point embeddings chunk =
     (case embeddings (doc_id chunk) of
        None \<Rightarrow> None
      | Some vector \<Rightarrow> Some (PointStruct (doc_id chunk) vector (chunk_payload chunk)))"

definition store_chunks_with_embeddings ::
  "qdrant_store option \<Rightarrow> string \<Rightarrow> exn option \<Rightarrow> document list \<Rightarrow> (string \<rightharpoonup> 'v)
     \<Rightarrow> ('d, 'v) qdrant \<Rightarrow> (exn + unit) \<times> ('d, 'v) qdrant" where
  "store_chunks_with_embeddings vector_store name fault chunks embeddings q =
     (case vector_store of
        None \<Rightarrow> (Inl ValueError, q)
      | Some s \<Rightarrow> upsert fault name (List.map_filter (chunk_point embeddings) chunks) q)"

text \<open>
  The ingestor: its configuration, which components \<^verbatim>\<open>initialize\<close> has set, and the
  stats. What the components and the outside world do during one call is the call's
  environment: whether the constructors raise, the dimension of the embedder, the faults
  of the client calls, the source directory, what the chunker returns for the documents
  and the embedder for the texts.
\<close>

record ingestor =
  ing_collection_name :: string
  ing_vector_store_name :: string
  chunker_set :: bool
  embedder_set :: bool
  vector_store :: "qdrant_store option"
  ing_stats :: stats

record ('d, 'v) call_env =
  chunker_fault :: "exn option"
  embedder_result :: "exn + int"
  config_fault :: "exn option"
  resolve_distance :: "string \<Rightarrow> 'd option"
  list_fault :: "exn option"
  create_fault :: "exn option"
  health_fault :: "exn option"
  source_dir :: data_dir
  chunker_split :: "document list \<Rightarrow> exn + document list"
  embed_texts :: "string list \<Rightarrow> exn + 'v list"
  upsert_fault :: "exn option"

text \<open>\<^verbatim>\<open>DocumentIngestor.__init__\<close> with its default arguments.\<close>

definition new_ingestor :: ingestor where
  "new_ingestor =
     \<lparr>ing_collection_name = ''Sentio_docs'', ing_vector_store_name = ''qdrant'',
      chunker_set = False, embedder_set = False, vector_store = None,
      ing_stats = \<lparr>documents_processed = 0, chunks_created = 0, embeddings_generated = 0,
                   bytes_processed = 0\<rparr>\<rparr>"

text \<open>
  \<^verbatim>\<open>get_vector_store\<close> and the construction of the \<^verbatim>\<open>QdrantStore\<close>: the name is
  compared lower-cased; \<open>config_fault\<close> is the \<^verbatim>\<open>ValueError\<close> for a missing URL or key;
  the constructor ends with \<^verbatim>\<open>_bootstrap_collection\<close>.
\<close>

definition lower_char :: "char \<Rightarrow> char" where
  "lower_char ch =
     (case map_of (zip ''ABCDEFGHIJKLMNOPQRSTUVWXYZ'' ''abcdefghijklmnopqrstuvwxyz'') ch of
        Some l \<Rightarrow> l
      | None \<Rightarrow> ch)"

definition get_vector_store ::
  "('d, 'v) call_env \<Rightarrow> string \<Rightarrow> string \<Rightarrow> int \<Rightarrow> ('d, 'v) qdrant
     \<Rightarrow> (exn + qdrant_store) \<times> ('d, 'v) qdrant" where
  "get_vector_store env name coll dim q =
     (if map lower_char name \<noteq> ''qdrant'' then (Inl ValueError, q)
      else (case config_fault env of
              Some e \<Rightarrow> (Inl e, q)
            | None \<Rightarrow>
                let s = \<lparr>collection_name = coll, vector_size = dim, distance = ''Cosine'',
                         content_payload_key = ''content'', metadata_payload_key = ''metadata''\<rparr>
                in (case bootstrap_collection (resolve_distance env) (list_fault env)
                           (create_fault env) s q of
                      (Inl e, q') \<Rightarrow> (Inl e, q')
                    | (Inr _, q') \<Rightarrow> (Inr s, q'))))"

text \<open>
  \<^verbatim>\<open>initialize\<close>: chunker, embedder, vector store, then the health check, whose result
  is only logged. A component set before a later one fails stays set.
\<close>

definition initialize ::
  "ingestor \<Rightarrow> ('d, 'v) call_env \<Rightarrow> ('d, 'v) qdrant \<Rightarrow> (exn + unit) \<times> ingestor \<times> ('d, 'v) qdrant" where
  "initialize g env q =
     (case chunker_fault env of
        Some e \<Rightarrow> (Inl e, g, q)
      | None \<Rightarrow>
          let g1 = g\<lparr>chunker_set := True\<rparr>
          in (case embedder_result env of
                Inl e \<Rightarrow> (Inl e, g1, q)
              | Inr dimension \<Rightarrow>
                  let g2 = g1\<lparr>embedder_set := True\<rparr>
                  in (case get_vector_store env (ing_vector_store_name g) (ing_collection_name g)
                             dimension q of
                        (Inl e, q') \<Rightarrow> (Inl e, g2, q')
                      | (Inr s, q') \<Rightarrow>
                          (case health_check (health_fault env) q' of
                             (_, q'') \<Rightarrow> (Inr (), g2\<lparr>vector_store := Some s\<rparr>, q'')))))"

text \<open>
  \<^verbatim>\<open>ingest_documents\<close>: initialise when a component is missing
  (\<^verbatim>\<open>if not all([self.chunker, self.embedder, self.vector_store])\<close>), then load, chunk,
  embed and store, in this order; the first exception ends the call. The result is the
  copy of the stats that a successful call returns; the ingestor carries the stats that
  \<^verbatim>\<open>stats\<close> shows afterwards.
\<close>

definition ensure_initialized ::
  "ingestor \<Rightarrow> ('d, 'v) call_env \<Rightarrow> ('d, 'v) qdrant \<Rightarrow> (exn + unit) \<times> ingestor \<times> ('d, 'v) qdrant" where
  "ensure_initialized g env q =
     (if chunker_set g \<and> embedder_set g \<and> vector_store g \<noteq> None then (Inr (), g, q)
      else initialize g env q)"

definition ingest_documents ::
  "ingestor \<Rightarrow> ('d, 'v) call_env \<Rightarrow> ('d, 'v) qdrant \<Rightarrow> (exn + stats) \<times> ingestor \<times> ('d, 'v) qdrant" where
  "ingest_documents g env q =
     (case ensure_initialized g env q of
        (Inl e, g0, q0) \<Rightarrow> (Inl e, g0, q0)
      | (Inr _, g0, q0) \<Rightarrow>
          let current_docs_count = documents_processed (ing_stats g0)
          in (case load_documents_from_directory (source_dir env) (ing_stats g0) of
                (Inl e, st1) \<Rightarrow> (Inl e, g0\<lparr>ing_stats := st1\<rparr>, q0)
              | (Inr documents, st1) \<Rightarrow>
                  let st2 = (if 0 < length documents \<and> documents_processed st1 = 0
                             then st1\<lparr>documents_processed := current_docs_count\<rparr> else st1)
                  in (case chunker_split env documents of
                        Inl e \<Rightarrow> (Inl e, g0\<lparr>ing_stats := st2\<rparr>, q0)
                      | Inr chunks \<Rightarrow>
                          let st3 = st2\<lparr>chunks_created := chunks_created st2 + int (length chunks)\<rparr>
                          in (case generate_embeddings (embedder_set g0) (embed_texts env) chunks st3 of
                                (Inl e, st4) \<Rightarrow> (Inl e, g0\<lparr>ing_stats := st4\<rparr>, q0)
                              | (Inr embeddings, st4) \<Rightarrow>
                                  (case store_chunks_with_embeddings (vector_store g0)
                                          (ing_collection_name g0) (upsert_fault env)
                                          chunks embeddings q0 of
                                     (Inl e, q1) \<Rightarrow> (Inl e, g0\<lparr>ing_stats := st4\<rparr>, q1)
                                   | (Inr _, q1) \<Rightarrow> (Inr st4, g0\<lparr>ing_stats := st4\<rparr>, q1))))))"

text \<open>A sequence of ingest calls on one ingestor, each with its own environment.\<close>

fun ingest_calls ::
  "ingestor \<Rightarrow> ('d, 'v) call_env list \<Rightarrow> ('d, 'v) qdrant \<Rightarrow> ingestor \<times> ('d, 'v) qdrant" where
  "ingest_calls g [] q = (g, q)"
| "ingest_calls g (env # envs) q =
     (case ingest_documents g env q of (_, g', q') \<Rightarrow> ingest_calls g' envs q')"

section \<open>Concrete configurations used in the examples\<close>



text \<open>
  An embedder with an API key and batches of two; a toy embedding function; a service
  that fails transiently on its first request and serves the toy embeddings afterwards;
  a service whose vectors depend on the position in the request only; an embedder state
  with nothing cached and nothing sent.
\<close>

definition example_embedder :: jina_embedder where
  "example_embedder =
     \<lparr>api_key = Some ''secret'', allow_empty_api_key = True, max_retries = 3, batch_size = 2\<rparr>"

definition length_emb :: "string \<Rightarrow> nat list" where
  "length_emb t = [length t]"

definition flaky_service :: "nat list service" where
  "flaky_service n inputs = (if n = 0 then TransientFailure else Data (map length_emb inputs))"


definition empty_state :: "(string, nat list) embedder_state" where
  "empty_state = \<lparr>cache = Map.empty, requests = []\<rparr>"

definition warm_state :: "(string, nat list) embedder_state" where
  "warm_state = \<lparr>cache = [''bb'' \<mapsto> [7]], requests = []\<rparr>"

definition warm_state_after :: "(string, nat list) embedder_state" where
  "warm_state_after =
     \<lparr>cache = [''bb'' \<mapsto> [7], ''a'' \<mapsto> [1], ''ccc'' \<mapsto> [3]],
      requests = [[''a'', ''ccc''], [''a'', ''ccc'']]\<rparr>"

definition failing_thrice :: "nat list service" where
  "failing_thrice n inputs = (if n < 3 then TransientFailure else Data (map length_emb inputs))"

text \<open>
  A text file, and an environment in which nothing fails: the chunker returns every
  document as one chunk and the embedder the toy embeddings. Its variants have one file
  instead of two, or an embedder that raises.
\<close>

definition text_file :: "string \<Rightarrow> string \<Rightarrow> file_entry" where
  "text_file name content =
     \<lparr>file_path = ''data/'' @ name, file_name = name, file_suffix = ''.txt'', is_file = True,
      st_size = length content, file_content = Inr content, new_doc_id = name\<rparr>"

definition example_env :: "(string, nat list) call_env" where
  "example_env =
     \<lparr>chunker_fault = None, embedder_result = Inr 1, config_fault = None,
      resolve_distance = (\<lambda>n. Some ''COSINE''), list_fault = None, create_fault = None,
      health_fault = None,
      source_dir = Directory True [text_file ''a.txt'' ''alpha'', text_file ''b.txt'' ''beta''],
      chunker_split = (\<lambda>documents. Inr documents),
      embed_texts = (\<lambda>texts. Inr (map length_emb texts)),
      upsert_fault = None\<rparr>"

definition one_file_env :: "(string, nat list) call_env" where
  "one_file_env = example_env\<lparr>source_dir := Directory True [text_file ''c.txt'' ''gamma'']\<rparr>"

definition failing_embedder_env :: "(string, nat list) call_env" where
  "failing_embedder_env = one_file_env\<lparr>embed_texts := (\<lambda>texts. Inl EmbeddingError)\<rparr>"

definition sentio_store :: qdrant_store where
  "sentio_store =
     \<lparr>collection_name = ''Sentio_docs'', vector_size = 1, distance = ''Cosine'',
      content_payload_key = ''content'', metadata_payload_key = ''metadata''\<rparr>"

section \<open>Properties of the vector store\<close>

text \<open>
  C9. \<^verbatim>\<open>health_check\<close> never raises and leaves the index as it is: whatever the
  probe does, the method returns a bool, which is True exactly when the probe returned
  and False when the probe raised.
\<close>

theorem health_check_total:
  "health_check fault (q :: ('d, 'v) qdrant) = (Inr (fault = None), q)"
  by (cases fault) (simp_all add: health_check_def get_collections_def)

text \<open>
  C1, as the code has it. When the probe returns and the collection already exists,
  bootstrap returns at once: no dimension is compared, no error is raised and nothing is
  written. When the collection is absent and the configured distance names a member of
  the enum, it is created empty with the configured size and that distance. A second
  bootstrap after a successful one changes nothing.
\<close>

theorem bootstrap_collection_create_if_absent:
  fixes q :: "('d, 'v) qdrant"
  shows "(collection_name s \<in> dom q \<longrightarrow>
            bootstrap_collection resolve None f2 s q = (Inr (), q))
       \<and> (collection_name s \<notin> dom q \<and> resolve (distance s) = Some d \<longrightarrow>
            bootstrap_collection resolve None None s q =
              (Inr (), q(collection_name s \<mapsto>
                 \<lparr>vec_size = vector_size s, vec_distance = d, col_points = Map.empty\<rparr>)))
       \<and> (bootstrap_collection resolve f1 f2 s q = (Inr (), q') \<longrightarrow>
            bootstrap_collection resolve None f2' s q' = (Inr (), q'))"
proof (intro conjI impI)
  assume "collection_name s \<in> dom q"
  then show "bootstrap_collection resolve None f2 s q = (Inr (), q)"
    by (simp add: bootstrap_collection_def get_collections_def)
next
  assume "collection_name s \<notin> dom q \<and> resolve (distance s) = Some d"
  then show "bootstrap_collection resolve None None s q =
      (Inr (), q(collection_name s \<mapsto>
         \<lparr>vec_size = vector_size s, vec_distance = d, col_points = Map.empty\<rparr>))"
    by (simp add: bootstrap_collection_def get_collections_def create_collection_def)
next
  assume ok: "bootstrap_collection resolve f1 f2 s q = (Inr (), q')"
  have "collection_name s \<in> dom q'"
    using ok
    by (auto simp: bootstrap_collection_def get_collections_def create_collection_def
             split: option.splits if_splits)
  then show "bootstrap_collection resolve None f2' s q' = (Inr (), q')"
    by (simp add: bootstrap_collection_def get_collections_def)
qed

text \<open>
  The claim as written fails: a store configured for 1024 dimensions bootstraps against
  an existing collection of 768 dimensions without any error.
\<close>

theorem bootstrap_collection_no_dimension_check:
  "vec_size (the ([''docs'' \<mapsto> \<lparr>vec_size = 768, vec_distance = ''COSINE'',
        col_points = (Map.empty :: string \<rightharpoonup> nat list point)\<rparr>] ''docs'')) \<noteq>
     vector_size \<lparr>collection_name = ''docs'', vector_size = 1024, distance = ''Cosine'',
        content_payload_key = ''content'', metadata_payload_key = ''metadata''\<rparr>
   \<and> bootstrap_collection (\<lambda>n. Some ''COSINE'') None None
       \<lparr>collection_name = ''docs'', vector_size = 1024, distance = ''Cosine'',
        content_payload_key = ''content'', metadata_payload_key = ''metadata''\<rparr>
       [''docs'' \<mapsto> \<lparr>vec_size = 768, vec_distance = ''COSINE'',
        col_points = (Map.empty :: string \<rightharpoonup> nat list point)\<rparr>]
     = (Inr (), [''docs'' \<mapsto> \<lparr>vec_size = 768, vec_distance = ''COSINE'',
        col_points = Map.empty\<rparr>])"
  by (simp add: bootstrap_collection_def get_collections_def)

theorem bootstrap_collection_create_if_absent_witness:
  "bootstrap_collection (\<lambda>n. Some ''COSINE'') None None
       \<lparr>collection_name = ''docs'', vector_size = 1024, distance = ''Cosine'',
        content_payload_key = ''content'', metadata_payload_key = ''metadata''\<rparr>
       (Map.empty :: (string, nat list) qdrant)
     = (Inr (), [''docs'' \<mapsto> \<lparr>vec_size = 1024, vec_distance = ''COSINE'',
        col_points = Map.empty\<rparr>])
   \<and> bootstrap_collection (\<lambda>n. Some ''COSINE'') None None
       \<lparr>collection_name = ''docs'', vector_size = 1024, distance = ''Cosine'',
        content_payload_key = ''content'', metadata_payload_key = ''metadata''\<rparr>
       [''docs'' \<mapsto> \<lparr>vec_size = 1024, vec_distance = ''COSINE'',
        col_points = (Map.empty :: string \<rightharpoonup> nat list point)\<rparr>]
     = (Inr (), [''docs'' \<mapsto> \<lparr>vec_size = 1024, vec_distance = ''COSINE'',
        col_points = Map.empty\<rparr>])"
proof -
  let ?s = "\<lparr>collection_name = ''docs'', vector_size = 1024, distance = ''Cosine'',
        content_payload_key = ''content'', metadata_payload_key = ''metadata''\<rparr>"
  let ?r = "\<lambda>n::string. Some ''COSINE''"
  let ?q0 = "Map.empty :: (string, nat list) qdrant"
  note t = bootstrap_collection_create_if_absent
    [where s = ?s and resolve = ?r and q = ?q0 and d = "''COSINE''" and ?f1.0 = None
       and ?f2.0 = None and ?f2' = None]
  from t have first: "bootstrap_collection ?r None None ?s ?q0 =
      (Inr (), ?q0(''docs'' \<mapsto> \<lparr>vec_size = 1024, vec_distance = ''COSINE'',
         col_points = Map.empty\<rparr>))"
    by simp
  from t first have "bootstrap_collection ?r None None ?s
      (?q0(''docs'' \<mapsto> \<lparr>vec_size = 1024, vec_distance = ''COSINE'', col_points = Map.empty\<rparr>))
      = (Inr (), ?q0(''docs'' \<mapsto> \<lparr>vec_size = 1024, vec_distance = ''COSINE'',
         col_points = Map.empty\<rparr>))"
    by blast
  with first show ?thesis by simp
qed

subsection \<open>Decimal rendering and upsert\<close>



















subsection \<open>Filter translation\<close>






section \<open>Properties of the embedder\<close>

subsection \<open>Requests, batches and retries\<close>

lemma retry_log:
  "retry n (request_once E mock service inputs) log = (r, log') \<Longrightarrow>
     \<exists>k\<le>n. log' = log @ replicate k inputs"
proof (induction n arbitrary: log)
  case 0
  then show ?case by simp
next
  case (Suc n)
  show ?case
  proof (cases "request_once E mock service inputs log")
    case (Pair a log1)
    have step: "log1 = log \<or> log1 = log @ [inputs]"
      using Pair by (auto simp: request_once_def split: if_splits response.splits)
    show ?thesis
    proof (cases "a = Inl TransientProviderError")
      case True
      with Suc.prems Pair have "retry n (request_once E mock service inputs) log1 = (r, log')"
        by simp
      from Suc.IH[OF this] obtain k where k: "k \<le> n" "log' = log1 @ replicate k inputs" by blast
      from step show ?thesis
      proof
        assume "log1 = log"
        with k show ?thesis by (intro exI[of _ k]) simp
      next
        assume "log1 = log @ [inputs]"
        with k show ?thesis by (intro exI[of _ "Suc k"]) (simp add: replicate_app_Cons_same)
      qed
    next
      case False
      with Suc.prems Pair have "log' = log1"
        by (auto split: sum.splits if_splits)
      with step show ?thesis
      proof (elim disjE)
        assume "log' = log1" "log1 = log"
        then show ?thesis by (intro exI[of _ 0]) simp
      next
        assume "log' = log1" "log1 = log @ [inputs]"
        then show ?thesis by (intro exI[of _ 1]) simp
      qed
    qed
  qed
qed


lemma concat_batches: "0 < n \<Longrightarrow> concat (batches n xs) = xs"
proof (induction n xs rule: batches.induct)
  case (1 n xs)
  then show ?case
    by (subst batches.simps) simp
qed

lemma batches_bound: "b \<in> set (batches n xs) \<Longrightarrow> length b \<le> n \<and> b \<noteq> [] \<and> set b \<subseteq> set xs"
proof (induction n xs rule: batches.induct)
  case (1 n xs)
  show ?case
  proof (cases "n = 0 \<or> xs = []")
    case True
    with "1.prems" show ?thesis by (simp add: batches.simps[of n xs])
  next
    case False
    with "1.prems" have "b = take n xs \<or> b \<in> set (batches n (drop n xs))"
      by (simp add: batches.simps[of n xs])
    then show ?thesis
    proof
      assume "b = take n xs"
      with False show ?thesis by (auto dest: in_set_takeD)
    next
      assume "b \<in> set (batches n (drop n xs))"
      from "1.IH"[OF False this] show ?thesis by (auto dest: in_set_dropD)
    qed
  qed
qed


lemma uncached_texts_of_filter:
  "uncached_texts_of texts (map f texts) = filter (\<lambda>t. f t = None) texts"
proof (induction texts rule: rev_induct)
  case Nil
  then show ?case by (simp add: uncached_texts_of_def)
next
  case (snoc x xs)
  have a: "filter (\<lambda>i. (map f xs @ [f x]) ! i = None) [0..<length xs] =
           filter (\<lambda>i. map f xs ! i = None) [0..<length xs]"
    by (rule filter_cong) (simp_all add: nth_append)
  have b: "map (\<lambda>i. (xs @ [x]) ! i) (filter (\<lambda>i. map f xs ! i = None) [0..<length xs]) =
           map (\<lambda>i. xs ! i) (filter (\<lambda>i. map f xs ! i = None) [0..<length xs])"
    by (rule map_cong) (auto simp: nth_append)
  have c: "(map f xs @ [f x]) ! length xs = f x"
    by (metis length_map nth_append_length)
  from snoc show ?case
    by (simp add: uncached_texts_of_def a b c)
qed

lemma request_once_log:
  "request_once E mock service inputs log = (r, log') \<Longrightarrow>
     (no_api_key E \<longrightarrow> log' = log) \<and> (\<not> no_api_key E \<longrightarrow> log' = log @ [inputs])"
  by (auto simp: request_once_def split: if_splits response.splits)

lemma retry_sent:
  "\<not> no_api_key E \<Longrightarrow> retry n (request_once E mock service inputs) log = (Inr vs, log') \<Longrightarrow>
     \<exists>k. log' = log @ replicate (Suc k) inputs"
proof (induction n arbitrary: log)
  case 0
  then show ?case by simp
next
  case (Suc n)
  show ?case
  proof (cases "request_once E mock service inputs log")
    case (Pair a log1)
    with Suc.prems(1) have log1: "log1 = log @ [inputs]"
      using request_once_log by blast
    show ?thesis
    proof (cases "a = Inl TransientProviderError")
      case True
      with Suc.prems Pair have "retry n (request_once E mock service inputs) log1 = (Inr vs, log')"
        by simp
      from Suc.IH[OF Suc.prems(1) this] obtain k where "log' = log1 @ replicate (Suc k) inputs"
        by blast
      with log1 show ?thesis
        by (intro exI[of _ "Suc k"]) (simp add: replicate_app_Cons_same)
    next
      case False
      with Suc.prems Pair have "log' = log1"
        by (auto split: sum.splits if_splits)
      with log1 show ?thesis by (intro exI[of _ 0]) simp
    qed
  qed
qed

lemma get_embeddings_log:
  "get_embeddings E mock service batch log = (r, log') \<Longrightarrow>
     \<exists>k\<le>3. log' = log @ replicate k batch"
proof (cases "batch = []")
  case True
  assume "get_embeddings E mock service batch log = (r, log')"
  with True show ?thesis by (intro exI[of _ 0]) (simp add: get_embeddings_def)
next
  case False
  assume g: "get_embeddings E mock service batch log = (r, log')"
  obtain a l where x: "execute_async_request E mock service batch log = (a, l)"
    by (cases "execute_async_request E mock service batch log")
  with g False have "l = log'"
    by (auto simp: get_embeddings_def split: sum.splits)
  with x show ?thesis
    unfolding execute_async_request_def using retry_log by blast
qed

lemma get_embeddings_sent:
  "\<not> no_api_key E \<Longrightarrow> batch \<noteq> [] \<Longrightarrow> get_embeddings E mock service batch log = (Inr vs, log') \<Longrightarrow>
     \<exists>k. log' = log @ replicate (Suc k) batch"
proof -
  assume key: "\<not> no_api_key E" and ne: "batch \<noteq> []"
    and g: "get_embeddings E mock service batch log = (Inr vs, log')"
  obtain a l where x: "execute_async_request E mock service batch log = (a, l)"
    by (cases "execute_async_request E mock service batch log")
  with g ne have "a = Inr vs" "l = log'"
    by (auto simp: get_embeddings_def split: sum.splits)
  with x key show ?thesis
    unfolding execute_async_request_def using retry_sent by blast
qed

lemma embed_each_log:
  "embed_each E mock service bs log = (r, log') \<Longrightarrow>
     \<exists>new. log' = log @ new \<and> set new \<subseteq> set bs"
proof (induction bs arbitrary: log r log')
  case Nil
  then show ?case by simp
next
  case (Cons b bs)
  obtain a l where g: "get_embeddings E mock service b log = (a, l)"
    by (cases "get_embeddings E mock service b log")
  from get_embeddings_log[OF g] obtain k where l: "l = log @ replicate k b" by blast
  show ?case
  proof (cases a)
    case (Inl e)
    with Cons.prems g have "log' = l" by simp
    with l show ?thesis by (intro exI[of _ "replicate k b"]) auto
  next
    case (Inr vs)
    obtain a2 l2 where e: "embed_each E mock service bs l = (a2, l2)"
      by (cases "embed_each E mock service bs l")
    with Cons.prems g Inr have "log' = l2" by (auto split: sum.splits)
    moreover from Cons.IH[OF e] obtain new where "l2 = l @ new" "set new \<subseteq> set bs" by blast
    ultimately show ?thesis using l
      by (intro exI[of _ "replicate k b @ new"]) auto
  qed
qed

lemma embed_each_sent:
  "\<not> no_api_key E \<Longrightarrow> embed_each E mock service bs log = (Inr vs, log') \<Longrightarrow> [] \<notin> set bs \<Longrightarrow>
     \<exists>new. log' = log @ new \<and> set new = set bs"
proof (induction bs arbitrary: log vs log')
  case Nil
  then show ?case by simp
next
  case (Cons b bs)
  obtain a l where g: "get_embeddings E mock service b log = (a, l)"
    by (cases "get_embeddings E mock service b log")
  with Cons.prems obtain us where a: "a = Inr us"
    by (cases a) auto
  from Cons.prems have ne: "b \<noteq> []" by auto
  from get_embeddings_sent[OF Cons.prems(1) ne g[unfolded a]]
  obtain k where l: "l = log @ replicate (Suc k) b" by blast
  obtain a2 l2 where e: "embed_each E mock service bs l = (a2, l2)"
    by (cases "embed_each E mock service bs l")
  with Cons.prems g a obtain ws where a2: "a2 = Inr ws" and l2: "log' = l2"
    by (cases a2) auto
  from Cons.prems have "[] \<notin> set bs" by simp
  from Cons.IH[OF Cons.prems(1) e[unfolded a2] this]
  obtain new where "l2 = l @ new" "set new = set bs" by blast
  with l l2 show ?case
    by (intro exI[of _ "replicate (Suc k) b @ new"]) auto
qed


subsection \<open>The merge loop\<close>

lemma zip_map_self: "zip xs (map f xs) = map (\<lambda>x. (x, f x)) xs"
  by (induction xs) simp_all

lemma merge_results_no_fresh:
  "merge_results cache_key zs [] c = (Inr r, c') \<Longrightarrow> \<forall>z\<in>set zs. snd z \<noteq> None"
proof (induction zs arbitrary: r c')
  case Nil
  then show ?case by simp
next
  case (Cons z zs)
  obtain t co where z: "z = (t, co)" by (cases z)
  show ?case
  proof (cases co)
    case None
    with Cons.prems z show ?thesis by simp
  next
    case (Some v)
    with Cons.prems z obtain r0 c0 where "merge_results cache_key zs [] c = (Inr r0, c0)"
      by (cases "merge_results cache_key zs [] c") (auto split: sum.splits)
    from Cons.IH[OF this] Some z show ?thesis by simp
  qed
qed

lemma embed_async_many_cases:
  assumes run: "embed_async_many cache_key E mock service texts st = (r, st')"
  defines "U \<equiv> filter (\<lambda>t. check_cache cache_key (cache st) t = None) texts"
  shows "(U = [] \<and> st' = st \<and> r = Inr (map (\<lambda>t. the (check_cache cache_key (cache st) t)) texts))
       \<or> (U \<noteq> [] \<and> batch_size E = 0 \<and> st' = st \<and> r = Inl ValueError)
       \<or> (U \<noteq> [] \<and> batch_size E \<noteq> 0 \<and>
            (\<exists>a log'. embed_each E mock service
                 (if batch_size E < 0 then [] else batches (nat (batch_size E)) U) (requests st) = (a, log')
               \<and> requests st' = log'
               \<and> (case a of
                     Inl e \<Rightarrow> r = Inl e \<and> cache st' = cache st
                   | Inr fresh \<Rightarrow>
                       (r, cache st') = merge_results cache_key
                          (zip texts (map (check_cache cache_key (cache st)) texts)) fresh (cache st))))"
proof -
  let ?f = "check_cache cache_key (cache st)"
  have all: "list_all (\<lambda>cached. cached \<noteq> None) (map ?f texts) \<longleftrightarrow> U = []"
    by (auto simp: U_def list_all_iff filter_empty_conv)
  have unc: "uncached_texts_of texts (map ?f texts) = U"
    by (simp add: U_def uncached_texts_of_filter)
  have hits: "U = [] \<Longrightarrow> map the (filter (\<lambda>c. c \<noteq> None) (map ?f texts)) = map (\<lambda>t. the (?f t)) texts"
  proof -
    assume "U = []"
    then have "filter (\<lambda>c. c \<noteq> None) (map ?f texts) = map ?f texts"
      by (auto simp: U_def filter_empty_conv)
    then show ?thesis by (simp add: comp_def)
  qed
  show ?thesis
  proof (cases "texts = []")
    case True
    with run show ?thesis by (simp add: embed_async_many_def U_def)
  next
    case ne: False
    show ?thesis
    proof (cases "U = []")
      case True
      with ne all have "embed_async_many cache_key E mock service texts st =
          (Inr (map the (filter (\<lambda>c. c \<noteq> None) (map ?f texts))), st)"
        by (simp add: embed_async_many_def Let_def)
      with run[symmetric]
      have "(r, st') = (Inr (map the (filter (\<lambda>c. c \<noteq> None) (map ?f texts))), st)"
        by (rule trans)
      then have "r = Inr (map the (filter (\<lambda>c. c \<noteq> None) (map ?f texts)))" and "st' = st"
        by (simp_all only: prod.inject)
      with True hits show ?thesis by simp
    next
      case False
      note U = this
      show ?thesis
      proof (cases "batch_size E = 0")
        case True
        with run ne all U show ?thesis
          by (simp add: embed_async_many_def Let_def)
      next
        case False
        let ?B = "if batch_size E < 0 then [] else batches (nat (batch_size E)) U"
        obtain a log' where e: "embed_each E mock service ?B (requests st) = (a, log')"
          by (cases "embed_each E mock service ?B (requests st)")
        show ?thesis
        proof (cases a)
          case (Inl x)
          with run ne all U False e unc show ?thesis
            by (auto simp: embed_async_many_def Let_def)
        next
          case (Inr fresh)
          obtain r2 c2 where m: "merge_results cache_key (zip texts (map ?f texts)) fresh (cache st) = (r2, c2)"
            by (cases "merge_results cache_key (zip texts (map ?f texts)) fresh (cache st)")
          with run ne all U False e unc Inr have "r = r2 \<and> st' = \<lparr>cache = c2, requests = log'\<rparr>"
            by (cases r2) (auto simp: embed_async_many_def Let_def)
          with U False e Inr m show ?thesis by auto
        qed
      qed
    qed
  qed
qed

text \<open>
  C6. Whatever the call returns, the requests it sends are batches of at most
  \<^verbatim>\<open>batch_size\<close> texts, none empty, made only of texts that had no cache hit; when
  every text has a hit, nothing is sent, the state is unchanged and the cached vectors are
  returned. When the call succeeds with an API key, the texts sent are exactly the
  uncached ones.
\<close>

theorem embed_async_many_requests:
  assumes run: "embed_async_many cache_key E mock service texts st = (r, st')"
  shows "\<exists>new. requests st' = requests st @ new
      \<and> (\<forall>b\<in>set new. int (length b) \<le> batch_size E \<and> b \<noteq> [] \<and>
            set b \<subseteq> {t \<in> set texts. check_cache cache_key (cache st) t = None})
      \<and> ((\<forall>t\<in>set texts. check_cache cache_key (cache st) t \<noteq> None) \<longrightarrow>
            new = [] \<and> st' = st \<and>
            r = Inr (map (\<lambda>t. the (check_cache cache_key (cache st) t)) texts))
      \<and> (\<not> no_api_key E \<and> (\<exists>vs. r = Inr vs) \<longrightarrow>
            \<Union> (set ` set new) = {t \<in> set texts. check_cache cache_key (cache st) t = None})"
proof -
  let ?f = "check_cache cache_key (cache st)"
  define U where "U = filter (\<lambda>t. ?f t = None) texts"
  have setU: "set U = {t \<in> set texts. ?f t = None}" by (auto simp: U_def)
  have allhit: "(\<forall>t\<in>set texts. ?f t \<noteq> None) \<longleftrightarrow> U = []"
    by (auto simp: U_def filter_empty_conv)
  note c = embed_async_many_cases[OF run, folded U_def]
  let ?B = "if batch_size E < 0 then [] else batches (nat (batch_size E)) U"
  have Bprops: "\<forall>b\<in>set ?B. int (length b) \<le> batch_size E \<and> b \<noteq> [] \<and> set b \<subseteq> set U"
  proof
    fix b assume b: "b \<in> set ?B"
    then have nonneg: "\<not> batch_size E < 0" and "b \<in> set (batches (nat (batch_size E)) U)"
      by (auto split: if_splits)
    from batches_bound[OF this(2)]
    have "length b \<le> nat (batch_size E)" "b \<noteq> []" "set b \<subseteq> set U" by simp_all
    with nonneg show "int (length b) \<le> batch_size E \<and> b \<noteq> [] \<and> set b \<subseteq> set U"
      by linarith
  qed
  from c show ?thesis
  proof (elim disjE)
    assume "U = [] \<and> st' = st \<and> r = Inr (map (\<lambda>t. the (?f t)) texts)"
    then show ?thesis
      using setU by (intro exI[of _ "[]"]) auto
  next
    assume "U \<noteq> [] \<and> batch_size E = 0 \<and> st' = st \<and> r = Inl ValueError"
    then show ?thesis
      using allhit by (intro exI[of _ "[]"]) auto
  next
    assume a: "U \<noteq> [] \<and> batch_size E \<noteq> 0 \<and>
            (\<exists>a log'. embed_each E mock service ?B (requests st) = (a, log')
               \<and> requests st' = log'
               \<and> (case a of
                     Inl e \<Rightarrow> r = Inl e \<and> cache st' = cache st
                   | Inr fresh \<Rightarrow>
                       (r, cache st') = merge_results cache_key
                          (zip texts (map ?f texts)) fresh (cache st)))"
    then obtain a' log' where e: "embed_each E mock service ?B (requests st) = (a', log')"
      and l: "requests st' = log'"
      and rest: "case a' of
                     Inl e \<Rightarrow> r = Inl e \<and> cache st' = cache st
                   | Inr fresh \<Rightarrow>
                       (r, cache st') = merge_results cache_key
                          (zip texts (map ?f texts)) fresh (cache st)"
      by blast
    from a have U: "U \<noteq> []" and bs: "batch_size E \<noteq> 0" by simp_all
    from embed_each_log[OF e] obtain new where new: "log' = requests st @ new" "set new \<subseteq> set ?B"
      by blast
    have sent: "\<Union> (set ` set new) = set U" if key: "\<not> no_api_key E" and ok: "r = Inr vs" for vs
    proof -
      from ok rest obtain fresh where fr: "a' = Inr fresh"
        and m: "merge_results cache_key (zip texts (map ?f texts)) fresh (cache st) = (Inr vs, cache st')"
        by (cases a') auto
      have pos: "0 < batch_size E"
      proof (rule ccontr)
        assume "\<not> 0 < batch_size E"
        with bs have "?B = []" by simp
        with e fr have "fresh = []" by simp
        with m have "\<forall>z\<in>set (zip texts (map ?f texts)). snd z \<noteq> None"
          using merge_results_no_fresh by blast
        then have "\<forall>t\<in>set texts. ?f t \<noteq> None"
          by (simp add: zip_map_self)
        with allhit U show False by simp
      qed
      then have B: "?B = batches (nat (batch_size E)) U" by simp
      have "[] \<notin> set ?B" using Bprops by blast
      from embed_each_sent[OF key e[unfolded fr] this] new(1)
      have "set new = set ?B" by auto
      then have "\<Union> (set ` set new) = set (concat ?B)" by simp
      also have "\<dots> = set U" using pos by (simp add: concat_batches)
      finally show ?thesis .
    qed
    show ?thesis
    proof (intro exI[of _ new] conjI)
      show "requests st' = requests st @ new" using l new by simp
      show "\<forall>b\<in>set new. int (length b) \<le> batch_size E \<and> b \<noteq> [] \<and>
            set b \<subseteq> {t \<in> set texts. ?f t = None}"
        using new(2) Bprops setU by blast
      show "(\<forall>t\<in>set texts. ?f t \<noteq> None) \<longrightarrow>
            new = [] \<and> st' = st \<and> r = Inr (map (\<lambda>t. the (?f t)) texts)"
        using allhit U by blast
      show "\<not> no_api_key E \<and> (\<exists>vs. r = Inr vs) \<longrightarrow>
            \<Union> (set ` set new) = {t \<in> set texts. ?f t = None}"
        using sent setU by auto
    qed
  qed
qed














subsection \<open>Concrete runs\<close>

lemmas embed_eval =
  embed_async_many_def uncached_texts_of_def check_cache_def store_cache_def
  get_embeddings_def execute_async_request_def request_once_def no_api_key_def
  example_embedder_def empty_state_def batches.simps Let_def numeral_3_eq_3


lemma example_flaky_run:
  "embed_async_many id example_embedder length_emb flaky_service [''a'', ''bb'', ''ccc'']
       warm_state = (Inr [[1], [7], [3]], warm_state_after)"
  by (simp add: embed_eval flaky_service_def length_emb_def warm_state_def warm_state_after_def)




subsection \<open>Retries\<close>

lemma retry_after_one_transient_failure:
  assumes key: "\<not> no_api_key E"
    and first: "service (length log) inputs = TransientFailure"
    and second: "service (Suc (length log)) inputs = Data vs"
  shows "execute_async_request E mock service inputs log = (Inr vs, log @ [inputs, inputs])"
  using assms by (simp add: execute_async_request_def request_once_def numeral_3_eq_3)

lemma immediate_success:
  assumes key: "\<not> no_api_key E"
    and first: "service (length log) inputs = Data vs"
  shows "execute_async_request E mock service inputs log = (Inr vs, log @ [inputs])"
  using assms by (simp add: execute_async_request_def request_once_def numeral_3_eq_3)

text \<open>
  C5. The number of attempts of a batch request is the literal 3 of the decorator
  \<^verbatim>\<open>@_retry(3)\<close>: the constructor argument \<^verbatim>\<open>max_retries\<close> is stored and never read.
  With \<^verbatim>\<open>max_retries = 1\<close> a request that fails transiently once is sent a second
  time and succeeds; with \<^verbatim>\<open>max_retries = 5\<close> a request that fails transiently three
  times is given up after the third attempt.
\<close>

theorem execute_async_request_fixed_attempts:
  "(\<forall>m. execute_async_request (E\<lparr>max_retries := m\<rparr>) mock service inputs log =
         execute_async_request E mock service inputs log)
   \<and> execute_async_request (example_embedder\<lparr>max_retries := 1\<rparr>) length_emb flaky_service
        [''a''] [] = (Inr [[1]], [[''a''], [''a'']])
   \<and> execute_async_request (example_embedder\<lparr>max_retries := 5\<rparr>) length_emb failing_thrice
        [''a''] [] = (Inl EmbeddingError, [[''a''], [''a''], [''a'']])"
proof (intro conjI allI)
  fix m
  have "request_once (E\<lparr>max_retries := m\<rparr>) mock service inputs =
        request_once E mock service inputs"
    by (auto simp: request_once_def no_api_key_def fun_eq_iff)
  then show "execute_async_request (E\<lparr>max_retries := m\<rparr>) mock service inputs log =
         execute_async_request E mock service inputs log"
    by (simp add: execute_async_request_def)
next
  show "execute_async_request (example_embedder\<lparr>max_retries := 1\<rparr>) length_emb flaky_service
        [''a''] [] = (Inr [[1]], [[''a''], [''a'']])"
    by (simp add: execute_async_request_def request_once_def no_api_key_def numeral_3_eq_3
        example_embedder_def flaky_service_def length_emb_def)
next
  show "execute_async_request (example_embedder\<lparr>max_retries := 5\<rparr>) length_emb failing_thrice
        [''a''] [] = (Inl EmbeddingError, [[''a''], [''a''], [''a'']])"
    by (simp add: execute_async_request_def request_once_def no_api_key_def numeral_3_eq_3
        example_embedder_def failing_thrice_def length_emb_def)
qed

subsection \<open>Cache lookups before requests\<close>

text \<open>The run of C6 on a cache that holds one of three texts.\<close>

theorem embed_async_many_requests_witness:
  "\<exists>new. requests warm_state_after = requests warm_state @ new
      \<and> (\<forall>b\<in>set new. int (length b) \<le> batch_size example_embedder \<and> b \<noteq> [] \<and>
            set b \<subseteq> {t \<in> set [''a'', ''bb'', ''ccc'']. check_cache id (cache warm_state) t = None})
      \<and> ((\<forall>t\<in>set [''a'', ''bb'', ''ccc'']. check_cache id (cache warm_state) t \<noteq> None) \<longrightarrow>
            new = [] \<and> warm_state_after = warm_state \<and>
            (Inr [[1], [7], [3]] :: exn + nat list list) =
              Inr (map (\<lambda>t. the (check_cache id (cache warm_state) t)) [''a'', ''bb'', ''ccc'']))
      \<and> (\<not> no_api_key example_embedder \<and> (\<exists>vs. (Inr [[1], [7], [3]] :: exn + nat list list) = Inr vs) \<longrightarrow>
            \<Union> (set ` set new) =
              {t \<in> set [''a'', ''bb'', ''ccc'']. check_cache id (cache warm_state) t = None})"
  by (rule embed_async_many_requests[OF example_flaky_run])

subsection \<open>Order, length and the cache after a call\<close>






section \<open>Properties of the ingestor\<close>

subsection \<open>What each stage does to the stats\<close>

lemma load_files_stats:
  "load_files fs documents seen st n = (documents', st', n') \<Longrightarrow>
     bytes_processed st \<le> bytes_processed st' \<and>
     chunks_created st' = chunks_created st \<and>
     embeddings_generated st' = embeddings_generated st \<and>
     documents_processed st' = documents_processed st \<and>
     n' - n = int (length documents') - int (length documents)"
proof (induction fs arbitrary: documents seen st n)
  case Nil
  then show ?case by simp
next
  case (Cons f fs)
  show ?case
  proof (cases "is_file f \<and> file_suffix f \<in> supported_extensions \<and> file_path f \<notin> seen")
    case False
    with Cons.prems have "load_files fs documents seen st n = (documents', st', n')"
      by (auto split: if_splits)
    from Cons.IH[OF this] show ?thesis .
  next
    case True
    show ?thesis
    proof (cases "read_file_content f")
      case (Inl e)
      with True Cons.prems have "load_files fs documents seen st n = (documents', st', n')"
        by simp
      from Cons.IH[OF this] show ?thesis .
    next
      case (Inr content)
      with True Cons.prems have "load_files fs (documents @ [document_of_file f content])
          (insert (file_path f) seen)
          (st\<lparr>bytes_processed := bytes_processed st + int (st_size f)\<rparr>) (n + 1)
            = (documents', st', n')"
        by simp
      from Cons.IH[OF this] show ?thesis by simp
    qed
  qed
qed

lemma load_documents_stats:
  assumes "load_documents_from_directory d st = (r, st')"
  shows "bytes_processed st \<le> bytes_processed st'"
    and "chunks_created st' = chunks_created st"
    and "embeddings_generated st' = embeddings_generated st"
    and "\<And>documents. r = Inr documents \<Longrightarrow>
           documents \<noteq> [] \<and> documents_processed st' = int (length documents)"
proof -
  show "bytes_processed st \<le> bytes_processed st'"
    using assms load_files_stats
    by (fastforce simp: load_documents_from_directory_def
          split: data_dir.splits if_splits prod.splits)
  show "chunks_created st' = chunks_created st"
    using assms load_files_stats
    by (fastforce simp: load_documents_from_directory_def
          split: data_dir.splits if_splits prod.splits)
  show "embeddings_generated st' = embeddings_generated st"
    using assms load_files_stats
    by (fastforce simp: load_documents_from_directory_def
          split: data_dir.splits if_splits prod.splits)
  show "documents \<noteq> [] \<and> documents_processed st' = int (length documents)"
    if "r = Inr documents" for documents
  proof -
    from assms that obtain paths st0 n where
      l: "load_files paths [] {} st 0 = (documents, st0, n)" and ne: "documents \<noteq> []"
      and st': "st' = st0\<lparr>documents_processed := n\<rparr>"
      by (auto simp: load_documents_from_directory_def
            split: data_dir.splits if_splits prod.splits)
    from load_files_stats[OF l] have "n = int (length documents)" by simp
    with ne st' show ?thesis by simp
  qed
qed

lemma generate_embeddings_stats:
  assumes "generate_embeddings ready embed_many chunks st = (r, st')"
  shows "embeddings_generated st \<le> embeddings_generated st'"
    and "chunks_created st' = chunks_created st"
    and "bytes_processed st' = bytes_processed st"
    and "documents_processed st' = documents_processed st"
    and "\<And>e. r = Inl e \<Longrightarrow> st' = st"
  using assms
  by (auto simp: generate_embeddings_def split: if_splits sum.splits)

lemma initialize_result:
  assumes "initialize g env q = (r, g', q')"
  shows "ing_stats g' = ing_stats g"
    and "ing_collection_name g' = ing_collection_name g"
    and "r = Inr () \<Longrightarrow> chunker_set g' \<and> embedder_set g' \<and> vector_store g' \<noteq> None"
    and "\<And>name c. q' name = Some c \<Longrightarrow>
           q name = Some c \<or> (q name = None \<and> col_points c = Map.empty)"
proof -
  show "ing_stats g' = ing_stats g"
    using assms
    by (auto simp: initialize_def Let_def split: option.splits sum.splits prod.splits)
  show "ing_collection_name g' = ing_collection_name g"
    using assms
    by (auto simp: initialize_def Let_def split: option.splits sum.splits prod.splits)
  show "r = Inr () \<Longrightarrow> chunker_set g' \<and> embedder_set g' \<and> vector_store g' \<noteq> None"
    using assms
    by (auto simp: initialize_def Let_def split: option.splits sum.splits prod.splits)
  have boot: "q1 name = Some c \<Longrightarrow> q name = Some c \<or> (q name = None \<and> col_points c = Map.empty)"
    if "bootstrap_collection res f1 f2 s q = (x, q1)" for res f1 f2 s x q1 name c
    using that
    by (auto simp: bootstrap_collection_def get_collections_def create_collection_def
          split: option.splits if_splits)
  have gvs: "q1 name = Some c \<Longrightarrow> q name = Some c \<or> (q name = None \<and> col_points c = Map.empty)"
    if "get_vector_store env n coll dim q = (x, q1)" for n coll dim x q1 name c
    using that boot
    by (fastforce simp: get_vector_store_def Let_def split: option.splits if_splits prod.splits sum.splits)
  show "q name = Some c \<or> (q name = None \<and> col_points c = Map.empty)"
    if "q' name = Some c" for name c
  proof -
    from assms have "q' = q \<or>
        (\<exists>dim x. get_vector_store env (ing_vector_store_name g) (ing_collection_name g) dim q = (x, q'))"
      by (auto simp: initialize_def Let_def health_check_def get_collections_def
            split: option.splits sum.splits prod.splits)
    then show ?thesis using gvs that by blast
  qed
qed

subsection \<open>Cumulative counters\<close>

lemma ensure_initialized_result:
  assumes "ensure_initialized g env q = (r, g', q')"
  shows "ing_stats g' = ing_stats g"
    and "ing_collection_name g' = ing_collection_name g"
    and "r = Inr () \<Longrightarrow> chunker_set g' \<and> embedder_set g' \<and> vector_store g' \<noteq> None"
    and "\<And>name c. q' name = Some c \<Longrightarrow>
           q name = Some c \<or> (q name = None \<and> col_points c = Map.empty)"
proof -
  from assms have d: "(r, g', q') = (Inr (), g, q) \<and> chunker_set g \<and> embedder_set g \<and>
      vector_store g \<noteq> None \<or> initialize g env q = (r, g', q')"
    by (auto simp: ensure_initialized_def split: if_splits)
  show "ing_stats g' = ing_stats g"
    using d initialize_result(1) by fastforce
  show "ing_collection_name g' = ing_collection_name g"
    using d initialize_result(2) by fastforce
  show "r = Inr () \<Longrightarrow> chunker_set g' \<and> embedder_set g' \<and> vector_store g' \<noteq> None"
    using d initialize_result(3) by fastforce
  show "q name = Some c \<or> (q name = None \<and> col_points c = Map.empty)"
    if "q' name = Some c" for name c
    using d initialize_result(4)[of g env q r g' q' name c] that by auto
qed

lemma ingest_documents_stats:
  assumes run: "ingest_documents g env q = (r, g', q')"
  shows "chunks_created (ing_stats g) \<le> chunks_created (ing_stats g')
       \<and> embeddings_generated (ing_stats g) \<le> embeddings_generated (ing_stats g')
       \<and> bytes_processed (ing_stats g) \<le> bytes_processed (ing_stats g')"
proof -
  obtain i g0 q0 where init: "ensure_initialized g env q = (i, g0, q0)"
    by (cases "ensure_initialized g env q") auto
  note g0 = ensure_initialized_result(1)[OF init]
  show ?thesis
  proof (cases i)
    case (Inl e)
    with run init have "g' = g0" by (simp add: ingest_documents_def)
    with g0 show ?thesis by simp
  next
    case (Inr u)
    obtain l st1 where load: "load_documents_from_directory (source_dir env) (ing_stats g0) = (l, st1)"
      by (cases "load_documents_from_directory (source_dir env) (ing_stats g0)")
    note s1 = load_documents_stats(1,2,3)[OF load]
    show ?thesis
    proof (cases l)
      case (Inl e)
      with run init Inr load have "ing_stats g' = st1"
        by (auto simp: ingest_documents_def)
      with s1 g0 show ?thesis by simp
    next
      case docs: (Inr documents)
      define st2 where "st2 = (if 0 < length documents \<and> documents_processed st1 = 0
                             then st1\<lparr>documents_processed := documents_processed (ing_stats g0)\<rparr>
                             else st1)"
      have s2: "chunks_created st2 = chunks_created st1"
        "embeddings_generated st2 = embeddings_generated st1"
        "bytes_processed st2 = bytes_processed st1"
        by (simp_all add: st2_def)
      show ?thesis
      proof (cases "chunker_split env documents")
        case (Inl e)
        with run init Inr load docs have "ing_stats g' = st2"
          by (auto simp: ingest_documents_def Let_def st2_def)
        with s1 s2 g0 show ?thesis by simp
      next
        case chunks: (Inr chunks)
        define st3 where "st3 = st2\<lparr>chunks_created := chunks_created st2 + int (length chunks)\<rparr>"
        obtain e st4 where gen: "generate_embeddings (embedder_set g0) (embed_texts env) chunks st3 = (e, st4)"
          by (cases "generate_embeddings (embedder_set g0) (embed_texts env) chunks st3")
        note s4 = generate_embeddings_stats(1,2,3)[OF gen]
        have "ing_stats g' = st4"
          using run init Inr load docs chunks gen
          by (auto simp: ingest_documents_def Let_def st2_def st3_def split: sum.splits prod.splits)
        with s1 s2 s4 g0 show ?thesis by (simp add: st3_def)
      qed
    qed
  qed
qed

lemma ingest_documents_returns_current_stats:
  "ingest_documents g env q = (Inr st, g', q') \<Longrightarrow> st = ing_stats g'"
  by (auto simp: ingest_documents_def Let_def split: sum.splits prod.splits)

lemma ingest_documents_sets_documents_processed:
  assumes run: "ingest_documents g env q = (Inr st, g', q')"
  shows "\<exists>documents st1. load_documents_from_directory (source_dir env) (ing_stats g) =
            (Inr documents, st1) \<and> documents \<noteq> [] \<and>
            documents_processed (ing_stats g') = int (length documents)"
proof -
  obtain i g0 q0 where init: "ensure_initialized g env q = (i, g0, q0)"
    by (cases "ensure_initialized g env q") auto
  note g0 = ensure_initialized_result(1)[OF init]
  from run init obtain u where i: "i = Inr u"
    by (cases i) (auto simp: ingest_documents_def)
  obtain l st1 where load: "load_documents_from_directory (source_dir env) (ing_stats g0) = (l, st1)"
    by (cases "load_documents_from_directory (source_dir env) (ing_stats g0)")
  from run init i load obtain documents where docs: "l = Inr documents"
    by (cases l) (auto simp: ingest_documents_def)
  from load_documents_stats(4)[OF load docs]
  have ne: "documents \<noteq> []" and dp: "documents_processed st1 = int (length documents)" by simp_all
  then have nz: "documents_processed st1 \<noteq> 0" by simp
  from run init i load docs nz obtain chunks where chunks: "chunker_split env documents = Inr chunks"
    by (cases "chunker_split env documents") (auto simp: ingest_documents_def Let_def)
  define st3 where "st3 = st1\<lparr>chunks_created := chunks_created st1 + int (length chunks)\<rparr>"
  obtain e st4 where gen: "generate_embeddings (embedder_set g0) (embed_texts env) chunks st3 = (e, st4)"
    by (cases "generate_embeddings (embedder_set g0) (embed_texts env) chunks st3")
  have "ing_stats g' = st4"
    using run init i load docs chunks gen nz
    by (auto simp: ingest_documents_def Let_def st3_def split: sum.splits prod.splits)
  moreover have "documents_processed st4 = documents_processed st3"
    using generate_embeddings_stats(4)[OF gen] .
  ultimately have "documents_processed (ing_stats g') = int (length documents)"
    using dp by (simp add: st3_def)
  with load docs ne g0 show ?thesis by auto
qed

text \<open>
  C3, as the code has it. Across any sequence of ingest calls on one ingestor, failed
  or not, \<^verbatim>\<open>chunks_created\<close>, \<^verbatim>\<open>embeddings_generated\<close> and \<^verbatim>\<open>bytes_processed\<close>
  never decrease. \<^verbatim>\<open>documents_processed\<close> is not cumulative: a call that succeeds
  leaves it at the number of documents that this call loaded.
\<close>

theorem ingest_calls_cumulative_counters:
  "(ingest_calls g envs q = (g', q') \<longrightarrow>
       chunks_created (ing_stats g) \<le> chunks_created (ing_stats g')
     \<and> embeddings_generated (ing_stats g) \<le> embeddings_generated (ing_stats g')
     \<and> bytes_processed (ing_stats g) \<le> bytes_processed (ing_stats g'))
   \<and> (ingest_documents g env q = (Inr st, g1, q1) \<longrightarrow>
       (\<exists>documents st1. load_documents_from_directory (source_dir env) (ing_stats g) =
            (Inr documents, st1) \<and> documents \<noteq> [] \<and>
            documents_processed (ing_stats g1) = int (length documents)))"
proof (intro conjI impI)
  assume "ingest_documents g env q = (Inr st, g1, q1)"
  then show "\<exists>documents st1. load_documents_from_directory (source_dir env) (ing_stats g) =
            (Inr documents, st1) \<and> documents \<noteq> [] \<and>
            documents_processed (ing_stats g1) = int (length documents)"
    by (rule ingest_documents_sets_documents_processed)
next
  have mono: "ingest_calls g envs q = (g', q') \<Longrightarrow>
       chunks_created (ing_stats g) \<le> chunks_created (ing_stats g')
     \<and> embeddings_generated (ing_stats g) \<le> embeddings_generated (ing_stats g')
     \<and> bytes_processed (ing_stats g) \<le> bytes_processed (ing_stats g')" for g envs q g' q'
  proof (induction envs arbitrary: g q)
    case Nil
    then show ?case by simp
  next
    case (Cons env envs)
    obtain r ga qa where step: "ingest_documents g env q = (r, ga, qa)"
      by (cases "ingest_documents g env q") auto
    with Cons.prems have "ingest_calls ga envs qa = (g', q')" by simp
    from Cons.IH[OF this] ingest_documents_stats[OF step] show ?case by linarith
  qed
  assume "ingest_calls g envs q = (g', q')"
  then show "chunks_created (ing_stats g) \<le> chunks_created (ing_stats g')" using mono by blast
  assume "ingest_calls g envs q = (g', q')"
  then show "embeddings_generated (ing_stats g) \<le> embeddings_generated (ing_stats g')"
    using mono by blast
  assume "ingest_calls g envs q = (g', q')"
  then show "bytes_processed (ing_stats g) \<le> bytes_processed (ing_stats g')" using mono by blast
qed

subsection \<open>Concrete calls\<close>

lemmas ingest_eval =
  ingest_documents_def ensure_initialized_def initialize_def get_vector_store_def
  bootstrap_collection_def get_collections_def create_collection_def health_check_def
  load_documents_from_directory_def read_file_content_def supported_extensions_def
  document_of_file_def generate_embeddings_def store_chunks_with_embeddings_def
  chunk_point_def chunk_payload_def upsert_def put_point_def List.map_filter_def
  new_ingestor_def example_env_def one_file_env_def failing_embedder_env_def
  text_file_def length_emb_def lower_char_def Let_def

lemma example_one_call:
  "fst (ingest_documents new_ingestor example_env Map.empty) =
     Inr \<lparr>documents_processed = 2, chunks_created = 2, embeddings_generated = 2,
          bytes_processed = 9\<rparr>"
  by (simp add: ingest_eval)

lemma example_one_call_stats:
  "ing_stats (fst (ingest_calls new_ingestor [example_env] Map.empty)) =
     \<lparr>documents_processed = 2, chunks_created = 2, embeddings_generated = 2,
      bytes_processed = 9\<rparr>"
  by (simp add: ingest_eval)

lemma example_two_calls_stats:
  "ing_stats (fst (ingest_calls new_ingestor [example_env, one_file_env] Map.empty)) =
     \<lparr>documents_processed = 1, chunks_created = 3, embeddings_generated = 3,
      bytes_processed = 14\<rparr>"
  by (simp add: ingest_eval)

text \<open>
  The claim as written fails for \<^verbatim>\<open>documents_processed\<close>: after a call that loads two
  documents and a second call that loads one, it is 1, less than the 2 it was after the
  first call.
\<close>

theorem documents_processed_decreases:
  "documents_processed (ing_stats (fst (ingest_calls new_ingestor [example_env, one_file_env] Map.empty)))
     < documents_processed (ing_stats (fst (ingest_calls new_ingestor [example_env] Map.empty)))"
  unfolding example_one_call_stats example_two_calls_stats by simp

theorem ingest_calls_cumulative_counters_witness:
  "chunks_created (ing_stats new_ingestor) \<le>
     chunks_created (ing_stats (fst (ingest_calls new_ingestor [example_env, one_file_env] Map.empty)))
   \<and> embeddings_generated (ing_stats new_ingestor) \<le>
     embeddings_generated (ing_stats (fst (ingest_calls new_ingestor [example_env, one_file_env] Map.empty)))
   \<and> bytes_processed (ing_stats new_ingestor) \<le>
     bytes_processed (ing_stats (fst (ingest_calls new_ingestor [example_env, one_file_env] Map.empty)))
   \<and> (\<exists>documents st1. load_documents_from_directory (source_dir example_env)
          (ing_stats new_ingestor) = (Inr documents, st1) \<and> documents \<noteq> [] \<and>
        documents_processed
          (ing_stats (fst (snd (ingest_documents new_ingestor example_env Map.empty)))) =
          int (length documents))"
proof -
  let ?X = "ingest_calls new_ingestor [example_env, one_file_env] Map.empty"
  let ?Y = "ingest_documents new_ingestor example_env (Map.empty :: (string, nat list) qdrant)"
  have x: "?X = (fst ?X, snd ?X)" by simp
  have y: "?Y = (Inr \<lparr>documents_processed = 2, chunks_created = 2, embeddings_generated = 2,
          bytes_processed = 9\<rparr>, fst (snd ?Y), snd (snd ?Y))"
    using example_one_call by (metis prod.collapse)
  note t1 = ingest_calls_cumulative_counters[THEN conjunct1, THEN mp, OF x]
  note t2 = ingest_calls_cumulative_counters[THEN conjunct2, THEN mp, OF y]
  from t1 t2 show ?thesis by blast
qed

subsection \<open>A call whose embedding step fails\<close>

text \<open>
  C2, as the code has it. When the embedder raises on the chunks of a call that got as
  far as embedding, the call raises the same exception and returns no stats; nothing is
  upserted (the index is as initialisation left it, where any collection it did not have
  before is empty); \<^verbatim>\<open>embeddings_generated\<close> is unchanged. The stats that \<^verbatim>\<open>stats\<close>
  shows afterwards keep what the earlier stages counted: \<^verbatim>\<open>chunks_created\<close> has grown
  by the number of chunks, \<^verbatim>\<open>bytes_processed\<close> by the loaded files, and
  \<^verbatim>\<open>documents_processed\<close> is the number of documents loaded.
\<close>

theorem ingest_documents_embedding_failure:
  assumes init: "ensure_initialized g env q = (Inr (), g0, q0)"
    and load: "load_documents_from_directory (source_dir env) (ing_stats g) = (Inr documents, st1)"
    and chunk: "chunker_split env documents = Inr chunks"
    and fail: "embed_texts env (map doc_text chunks) = Inl e"
  shows "\<exists>g'. ingest_documents g env q = (Inl e, g', q0)
     \<and> (\<forall>name c. q0 name = Some c \<longrightarrow>
           q name = Some c \<or> (q name = None \<and> col_points c = Map.empty))
     \<and> embeddings_generated (ing_stats g') = embeddings_generated (ing_stats g)
     \<and> chunks_created (ing_stats g') = chunks_created (ing_stats g) + int (length chunks)
     \<and> bytes_processed (ing_stats g') = bytes_processed st1
     \<and> documents_processed (ing_stats g') = int (length documents)"
proof -
  note g0 = ensure_initialized_result(1)[OF init]
  from ensure_initialized_result(3)[OF init] have ready: "embedder_set g0" by simp
  from load g0 have load0: "load_documents_from_directory (source_dir env) (ing_stats g0) =
      (Inr documents, st1)" by simp
  from load_documents_stats(4)[OF load refl]
  have dp: "documents_processed st1 = int (length documents)" and ne: "documents \<noteq> []"
    by simp_all
  then have nz: "documents_processed st1 \<noteq> 0" by simp
  let ?st3 = "st1\<lparr>chunks_created := chunks_created st1 + int (length chunks)\<rparr>"
  have gen: "generate_embeddings (embedder_set g0) (embed_texts env) chunks ?st3 = (Inl e, ?st3)"
    using ready fail by (simp add: generate_embeddings_def)
  have run: "ingest_documents g env q = (Inl e, g0\<lparr>ing_stats := ?st3\<rparr>, q0)"
    using init load0 chunk gen nz by (simp add: ingest_documents_def Let_def)
  have idx: "\<forall>name c. q0 name = Some c \<longrightarrow>
           q name = Some c \<or> (q name = None \<and> col_points c = Map.empty)"
    using ensure_initialized_result(4)[OF init] by blast
  from load_documents_stats(2,3)[OF load] dp
  have "embeddings_generated (ing_stats (g0\<lparr>ing_stats := ?st3\<rparr>)) = embeddings_generated (ing_stats g)"
    and "chunks_created (ing_stats (g0\<lparr>ing_stats := ?st3\<rparr>)) =
           chunks_created (ing_stats g) + int (length chunks)"
    and "bytes_processed (ing_stats (g0\<lparr>ing_stats := ?st3\<rparr>)) = bytes_processed st1"
    and "documents_processed (ing_stats (g0\<lparr>ing_stats := ?st3\<rparr>)) = int (length documents)"
    by simp_all
  with run idx show ?thesis by blast
qed

lemma example_failed_call:
  "ingest_documents new_ingestor failing_embedder_env Map.empty =
     (Inl EmbeddingError,
      \<lparr>ing_collection_name = ''Sentio_docs'', ing_vector_store_name = ''qdrant'',
       chunker_set = True, embedder_set = True, vector_store = Some sentio_store,
       ing_stats = \<lparr>documents_processed = 1, chunks_created = 1, embeddings_generated = 0,
                    bytes_processed = 5\<rparr>\<rparr>,
      [''Sentio_docs'' \<mapsto> \<lparr>vec_size = 1, vec_distance = ''COSINE'', col_points = Map.empty\<rparr>])"
  by (simp add: ingest_eval sentio_store_def)

text \<open>
  The claim as written fails in its second half: after a call that failed in the
  embedding step and stored nothing, the stats of a new ingestor show one chunk created
  (and one document and five bytes processed).
\<close>

theorem failed_call_counts_chunks:
  "fst (ingest_documents new_ingestor failing_embedder_env Map.empty) = Inl EmbeddingError
   \<and> snd (snd (ingest_documents new_ingestor failing_embedder_env Map.empty)) =
       [''Sentio_docs'' \<mapsto> \<lparr>vec_size = 1, vec_distance = ''COSINE'', col_points = Map.empty\<rparr>]
   \<and> chunks_created (ing_stats new_ingestor) = 0
   \<and> chunks_created
       (ing_stats (fst (snd (ingest_documents new_ingestor failing_embedder_env Map.empty)))) = 1"
  by (simp add: example_failed_call) (simp add: new_ingestor_def)

lemma example_initialized:
  "ensure_initialized new_ingestor failing_embedder_env Map.empty =
     (Inr (),
      \<lparr>ing_collection_name = ''Sentio_docs'', ing_vector_store_name = ''qdrant'',
       chunker_set = True, embedder_set = True, vector_store = Some sentio_store,
       ing_stats = ing_stats new_ingestor\<rparr>,
      [''Sentio_docs'' \<mapsto> \<lparr>vec_size = 1, vec_distance = ''COSINE'', col_points = Map.empty\<rparr>])"
  by (simp add: ingest_eval sentio_store_def)

lemma example_loaded:
  "load_documents_from_directory (source_dir failing_embedder_env) (ing_stats new_ingestor) =
     (Inr [document_of_file (text_file ''c.txt'' ''gamma'') ''gamma''],
      \<lparr>documents_processed = 1, chunks_created = 0, embeddings_generated = 0,
       bytes_processed = 5\<rparr>)"
  by (simp add: ingest_eval)

theorem ingest_documents_embedding_failure_witness:
  "\<exists>g'. ingest_documents new_ingestor failing_embedder_env Map.empty =
       (Inl EmbeddingError, g',
        [''Sentio_docs'' \<mapsto> \<lparr>vec_size = 1, vec_distance = ''COSINE'', col_points = Map.empty\<rparr>])
     \<and> embeddings_generated (ing_stats g') = embeddings_generated (ing_stats new_ingestor)
     \<and> chunks_created (ing_stats g') = chunks_created (ing_stats new_ingestor) + 1"
proof -
  have chunk: "chunker_split failing_embedder_env
      [document_of_file (text_file ''c.txt'' ''gamma'') ''gamma''] =
        Inr [document_of_file (text_file ''c.txt'' ''gamma'') ''gamma'']"
    by (simp add: failing_embedder_env_def one_file_env_def example_env_def)
  have fail: "embed_texts failing_embedder_env
      (map doc_text [document_of_file (text_file ''c.txt'' ''gamma'') ''gamma'']) =
        Inl EmbeddingError"
    by (simp add: failing_embedder_env_def)
  note t = ingest_documents_embedding_failure[OF example_initialized example_loaded chunk fail]
  then show ?thesis by auto
qed

end
